theory Spec2Isabelle
  imports Main
begin

section \<open>Documents, requests and responses\<close>

text \<open>
  The embedding covers the two servers of the repository: \<^verbatim>\<open>src/backend/server.js\<close>
  (uploads go to Cloudinary, moderation routes sit behind \<^verbatim>\<open>verifyAdmin\<close>) and
  \<^verbatim>\<open>src/unnamed/part_000\<close> (uploads go to the local disk, no route is guarded).
  The route handlers that the two files share are embedded once.

  A field that the request may leave out is a \<open>string option\<close>: \<open>None\<close> is JavaScript's
  \<^verbatim>\<open>undefined\<close>. The \<^verbatim>\<open>_id\<close> of a document is a natural number: the number that
  the twelve bytes of the ObjectId spell, which orders ObjectIds as MongoDB does.
\<close>

record issue_doc =
  iid :: nat
  photo :: string
  location :: "string option"
  emailid :: "string option"
  category :: "string option"
  issue :: "string option"
  description :: "string option"
  date :: string
  status :: string

text \<open>
  Modelled from the spec: \<^verbatim>\<open>models/user.js\<close> is not among the sources. The spec gives a
  User the fields \<open>email\<close>, \<open>name\<close> and \<open>password\<close>.
\<close>

record user_doc =
  email :: string
  name :: string
  password :: string

text \<open>An issue as the aggregated views return it: the stored document and \<^verbatim>\<open>username\<close>.\<close>

record named_issue =
  doc :: issue_doc
  username :: string

text \<open>
  The state that the handlers read and write: the two collections, the source of fresh
  \<^verbatim>\<open>_id\<close>s, and the directory \<^verbatim>\<open>public/uploads\<close> (file name to content).
\<close>

record server_state =
  users :: "user_doc list"
  issues :: "issue_doc list"
  next_id :: nat
  uploads :: "string \<rightharpoonup> string"

text \<open>The file part of a multipart request, and \<^verbatim>\<open>req.file\<close> as the storage engine leaves it.\<close>

record part =
  originalname :: string
  content :: string

record stored_file =
  filename :: string
  path :: "string option"
  url :: "string option"
  secure_url :: "string option"

text \<open>The text fields of a submission, \<^verbatim>\<open>req.body\<close>; a caller may send a \<open>status\<close> too.\<close>

record issue_form =
  body_location :: "string option"
  body_emailid :: "string option"
  body_category :: "string option"
  body_issue :: "string option"
  body_description :: "string option"
  body_status :: "string option"

text \<open>
  What a request finds around the handlers: whether each collection answers (a call on a
  collection that does not answer throws, and the handler's \<^verbatim>\<open>catch\<close> runs), the
  clock in milliseconds and the date as \<^verbatim>\<open>toLocaleDateString\<close> prints it, how
  Mongoose casts the id of a path to an ObjectId (to the number that its twelve bytes
  spell; \<open>None\<close>: the id is no ObjectId and the cast throws a CastError), which tokens \<^verbatim>\<open>jwt.verify\<close> accepts, what Cloudinary answers to an upload (\<open>None\<close>: the
  upload is refused), and \<^verbatim>\<open>new RegExp(name, "i")\<close> (\<open>None\<close>: the pattern is not
  a regular expression and the constructor throws).
\<close>

record env =
  issues_up :: bool
  users_up :: bool
  now :: nat
  today :: string
  objectId :: "string \<Rightarrow> nat option"
  jwt_verify :: "string \<Rightarrow> bool"
  cloudinary :: "part \<Rightarrow> stored_file option"
  regexp :: "string \<Rightarrow> (string \<Rightarrow> bool) option"

text \<open>
  A response is a status code and a body: the JSON objects that the handlers send, the two
  refusals of the authorization gate, and \<open>Unhandled\<close> for what Express answers when no
  handler of the file does.
\<close>

datatype auth_error = MissingCredentialsError | InvalidTokenError

datatype body =
    Message string
  | Error string
  | IssueList "issue_doc list"
  | NamedIssueList "named_issue list"
  | Updated string issue_doc
  | Count nat
  | UserList "user_doc list"
  | Valid
  | Refused auth_error
  | Unhandled

type_synonym response = "nat \<times> body"

text \<open>
  The routes, each with what its handler reads from the path, the query and the body. A
  status transition has the id as the path spells it, \<^verbatim>\<open>req.params.id\<close>, and the
  status of its body as a string.
\<close>

datatype route =
    PostIssue "part option" issue_form
  | GetIssues
  | GetIssuesByStatus string
  | GetIssuesByUser string "string option"
  | GetPending
  | GetAccepted
  | PatchStatus string string
  | UsersCount
  | UsersSearch "string option"
  | DeleteUser string
  | AdminVerify

record request =
  authorization :: "string option"
  target :: route

section \<open>JavaScript and Node helpers\<close>

text \<open>A string value is truthy when it is defined and not empty.\<close>

definition truthy :: "string option \<Rightarrow> bool" where
  "truthy v = (case v of None \<Rightarrow> False | Some t \<Rightarrow> t \<noteq> [])"

text \<open>\<^verbatim>\<open>a || b\<close>: the left operand when it is truthy, the right one otherwise.\<close>

definition js_or :: "string option \<Rightarrow> string option \<Rightarrow> string option" where
  "js_or a b = (if truthy a then a else b)"

text \<open>\<^verbatim>\<open>s.split(c)\<close> for a one-character separator, and \<^verbatim>\<open>xs[i]\<close>.\<close>

fun split_on :: "char \<Rightarrow> string \<Rightarrow> string list" where
  "split_on c [] = [[]]"
| "split_on c (x # xs) =
     (if x = c then [] # split_on c xs
      else (case split_on c xs of [] \<Rightarrow> [[x]] | y # ys \<Rightarrow> (x # y) # ys))"

fun index :: "'a list \<Rightarrow> nat \<Rightarrow> 'a option" where
  "index [] i = None"
| "index (x # xs) 0 = Some x"
| "index (x # xs) (Suc i) = index xs i"

text \<open>
  A string of 24 hexadecimal digits read as a number: the strings that every version of
  Mongoose casts to an ObjectId.
\<close>

fun position :: "char \<Rightarrow> string \<Rightarrow> nat option" where
  "position c [] = None"
| "position c (x # xs) =
     (if c = x then Some 0 else (case position c xs of None \<Rightarrow> None | Some k \<Rightarrow> Some (Suc k)))"

definition hex_digit :: "char \<Rightarrow> nat option" where
  "hex_digit c =
     (case position c ''0123456789abcdef'' of
        Some d \<Rightarrow> Some d
      | None \<Rightarrow> (case position c ''ABCDEF'' of Some d \<Rightarrow> Some (10 + d) | None \<Rightarrow> None))"

fun hex_number :: "nat \<Rightarrow> string \<Rightarrow> nat option" where
  "hex_number acc [] = Some acc"
| "hex_number acc (c # cs) =
     (case hex_digit c of None \<Rightarrow> None | Some d \<Rightarrow> hex_number (16 * acc + d) cs)"

definition hex_object_id :: "string \<Rightarrow> nat option" where
  "hex_object_id t = (if length t = 24 then hex_number 0 t else None)"

text \<open>A non-negative integer converted to a string, as \<^verbatim>\<open>Date.now() + "..."\<close> does.\<close>

definition digit :: "nat \<Rightarrow> char" where
  "digit d = ''0123456789'' ! d"

fun number_string :: "nat \<Rightarrow> string" where
  "number_string n =
     (if n < 10 then [digit n] else number_string (n div 10) @ [digit (n mod 10)])"

text \<open>
  \<^verbatim>\<open>path.extname\<close> of Node (POSIX): one scan from the end of the string, which stops at the
  first \<^verbatim>\<open>/\<close> after the last path segment. \<open>scan p k st\<close> has the characters at the
  indices below \<open>k\<close> still to read.
\<close>

record ext_scan =
  startDot :: "nat option"
  startPart :: nat
  end_pos :: "nat option"
  matchedSlash :: bool
  preDotState :: int

fun scan :: "string \<Rightarrow> nat \<Rightarrow> ext_scan \<Rightarrow> ext_scan" where
  "scan p 0 st = st"
| "scan p (Suc i) st =
     (if p ! i = CHR ''/'' then
        (if \<not> matchedSlash st then st\<lparr>startPart := i + 1\<rparr> else scan p i st)
      else
        (let st1 = (if end_pos st = None
                    then st\<lparr>matchedSlash := False, end_pos := Some (i + 1)\<rparr> else st);
             st2 = (if p ! i = CHR ''.'' then
                      (if startDot st1 = None then st1\<lparr>startDot := Some i\<rparr>
                       else if preDotState st1 \<noteq> 1 then st1\<lparr>preDotState := 1\<rparr>
                       else st1)
                    else if startDot st1 \<noteq> None then st1\<lparr>preDotState := - 1\<rparr>
                    else st1)
         in scan p i st2))"

definition extname :: "string \<Rightarrow> string" where
  "extname p =
     (let st = scan p (length p)
                 \<lparr>startDot = None, startPart = 0, end_pos = None,
                  matchedSlash = True, preDotState = 0\<rparr>
      in case (startDot st, end_pos st) of
           (Some d, Some e) \<Rightarrow>
             (if preDotState st = 0 \<or> (preDotState st = 1 \<and> d = e - 1 \<and> d = startPart st + 1)
              then [] else take (e - d) (drop d p))
         | _ \<Rightarrow> [])"

section \<open>The Evidence Storage Adapter\<close>

text \<open>
  \<^verbatim>\<open>multer.diskStorage\<close> of \<^verbatim>\<open>part_000\<close>: the stored name is
  \<^verbatim>\<open>Date.now() + path.extname(file.originalname)\<close>, and the file is written under that
  name in \<^verbatim>\<open>public/uploads\<close>, replacing what was there.
\<close>

definition disk_filename :: "nat \<Rightarrow> string \<Rightarrow> string" where
  "disk_filename t original = number_string t @ extname original"

definition disk_storage :: "env \<Rightarrow> server_state \<Rightarrow> part \<Rightarrow> stored_file \<times> server_state" where
  "disk_storage e s p =
     (let fn = disk_filename (now e) (originalname p)
      in (\<lparr>filename = fn, path = Some (''public/uploads/'' @ fn), url = None, secure_url = None\<rparr>,
          s\<lparr>uploads := (uploads s)(fn \<mapsto> content p)\<rparr>))"

section \<open>The collections\<close>

text \<open>
  The calls of the handlers on a collection, on the list of its documents in the order in
  which the collection returns them (insertion order).
\<close>

text \<open>\<^verbatim>\<open>.sort({ _id: -1 })\<close>\<close>

definition sort_desc :: "issue_doc list \<Rightarrow> issue_doc list" where
  "sort_desc xs = rev (sort_key iid xs)"

text \<open>\<^verbatim>\<open>findOneAndDelete\<close> removes the first match; \<^verbatim>\<open>findByIdAndUpdate\<close> rewrites it.\<close>

fun delete_first :: "('a \<Rightarrow> bool) \<Rightarrow> 'a list \<Rightarrow> 'a list" where
  "delete_first P [] = []"
| "delete_first P (x # xs) = (if P x then xs else x # delete_first P xs)"

fun update_first :: "('a \<Rightarrow> bool) \<Rightarrow> ('a \<Rightarrow> 'a) \<Rightarrow> 'a list \<Rightarrow> 'a list" where
  "update_first P f [] = []"
| "update_first P f (x # xs) = (if P x then f x # xs else x # update_first P f xs)"

text \<open>\<^verbatim>\<open>user.findOne({ email: item.emailid })\<close>\<close>

definition findOne_user :: "server_state \<Rightarrow> string option \<Rightarrow> user_doc option" where
  "findOne_user s e = find (\<lambda>u. Some (email u) = e) (users s)"

section \<open>The route handlers\<close>

text \<open>\<^verbatim>\<open>POST /api/issues\<close> of \<^verbatim>\<open>server.js\<close>, after \<^verbatim>\<open>upload.single("photo")\<close>.\<close>

definition new_issue :: "env \<Rightarrow> server_state \<Rightarrow> string \<Rightarrow> issue_form \<Rightarrow> issue_doc" where
  "new_issue e s img b =
     \<lparr>iid = next_id s, photo = img, location = body_location b, emailid = body_emailid b,
      category = body_category b, issue = body_issue b, description = body_description b,
      date = today e, status = ''pending''\<rparr>"

definition save :: "env \<Rightarrow> server_state \<Rightarrow> issue_doc \<Rightarrow> response \<times> server_state" where
  "save e s newIssue =
     (let s1 = s\<lparr>next_id := Suc (next_id s)\<rparr>
      in if issues_up e
         then ((201, Message ''Issue submitted successfully!''),
               s1\<lparr>issues := issues s1 @ [newIssue]\<rparr>)
         else ((500, Error ''Internal Server Error''), s1))"

definition post_issue :: "env \<Rightarrow> server_state \<Rightarrow> stored_file option \<Rightarrow> issue_form
    \<Rightarrow> response \<times> server_state" where
  "post_issue e s req_file b =
     (case req_file of
        None \<Rightarrow> ((400, Error ''no file uploaded''), s)
      | Some f \<Rightarrow>
          (let imageUrl = js_or (js_or (path f) (url f)) (secure_url f)
           in case imageUrl of
                None \<Rightarrow> ((500, Error ''Cloudinary upload failed''), s)
              | Some img \<Rightarrow>
                  if img = [] then ((500, Error ''Cloudinary upload failed''), s)
                  else save e s (new_issue e s img b)))"

text \<open>\<^verbatim>\<open>POST /api/issues\<close> of \<^verbatim>\<open>part_000\<close>.\<close>

definition post_issue_disk :: "env \<Rightarrow> server_state \<Rightarrow> stored_file option \<Rightarrow> issue_form
    \<Rightarrow> response \<times> server_state" where
  "post_issue_disk e s req_file b =
     (case req_file of
        None \<Rightarrow> ((400, Error ''no file uploaded''), s)
      | Some f \<Rightarrow> save e s (new_issue e s (''/uploads/'' @ filename f) b))"

text \<open>
  The aggregation that four handlers repeat: \<^verbatim>\<open>Promise.all\<close> over one
  \<^verbatim>\<open>user.findOne\<close> for each issue. With no issue there is no call on the
  users collection.
\<close>

definition with_name :: "server_state \<Rightarrow> issue_doc \<Rightarrow> named_issue" where
  "with_name s item =
     \<lparr>doc = item,
      username = (case findOne_user s (emailid item) of
                    Some userInfo \<Rightarrow> name userInfo
                  | None \<Rightarrow> ''Anonymous User'')\<rparr>"

definition issuesWithNames :: "env \<Rightarrow> server_state \<Rightarrow> issue_doc list
    \<Rightarrow> named_issue list option" where
  "issuesWithNames e s items =
     (if items \<noteq> [] \<and> \<not> users_up e then None else Some (map (with_name s) items))"

definition aggregated :: "string \<Rightarrow> (issue_doc \<Rightarrow> bool) \<Rightarrow> env \<Rightarrow> server_state \<Rightarrow> response" where
  "aggregated failure flt e s =
     (if \<not> issues_up e then (500, Error failure)
      else case issuesWithNames e s (sort_desc (filter flt (issues s))) of
             None \<Rightarrow> (500, Error failure)
           | Some named \<Rightarrow> (200, NamedIssueList named))"

text \<open>\<^verbatim>\<open>GET /api/issues\<close>\<close>

definition get_issues :: "env \<Rightarrow> server_state \<Rightarrow> response" where
  "get_issues = aggregated ''Failed to fetch issues'' (\<lambda>i. True)"

text \<open>\<^verbatim>\<open>GET /api/issues/status/:status\<close>\<close>

definition get_issues_by_status :: "string \<Rightarrow> env \<Rightarrow> server_state \<Rightarrow> response" where
  "get_issues_by_status st =
     aggregated ''Failed to fetch filtered issues'' (\<lambda>i. status i = st)"

text \<open>\<^verbatim>\<open>GET /api/issues/user/:emailid\<close>, with the optional \<^verbatim>\<open>?status=\<close>\<close>

definition get_issues_by_user :: "string \<Rightarrow> string option \<Rightarrow> env \<Rightarrow> server_state \<Rightarrow> response" where
  "get_issues_by_user em st =
     aggregated ''Failed to fetch user issues''
       (\<lambda>i. emailid i = Some em \<and> (if truthy st then Some (status i) = st else True))"

text \<open>\<^verbatim>\<open>GET /api/issues/accepted\<close>\<close>

definition get_accepted :: "env \<Rightarrow> server_state \<Rightarrow> response" where
  "get_accepted = aggregated ''Failed to fetch accepted issues'' (\<lambda>i. status i = ''accepted'')"

text \<open>\<^verbatim>\<open>GET /pending\<close>\<close>

definition get_pending :: "env \<Rightarrow> server_state \<Rightarrow> response" where
  "get_pending e s =
     (if issues_up e then (200, IssueList (filter (\<lambda>i. status i = ''pending'') (issues s)))
      else (500, Message ''Error fetching pending issues''))"

text \<open>
  \<^verbatim>\<open>PATCH /api/issues/:id/status\<close>. \<^verbatim>\<open>findByIdAndUpdate\<close> is given the id as the
  path spells it and casts it to an ObjectId; \<open>None\<close> is a call that throws, on the
  cast or because the collection does not answer, and the handler's \<^verbatim>\<open>catch\<close> runs.
\<close>

definition findByIdAndUpdate :: "env \<Rightarrow> string \<Rightarrow> string \<Rightarrow> issue_doc list
    \<Rightarrow> (issue_doc option \<times> issue_doc list) option" where
  "findByIdAndUpdate e pid st docs =
     (case objectId e pid of
        None \<Rightarrow> None
      | Some k \<Rightarrow>
          if \<not> issues_up e then None
          else (case find (\<lambda>i. iid i = k) docs of
                  None \<Rightarrow> Some (None, docs)
                | Some i \<Rightarrow>
                    Some (Some (i\<lparr>status := st\<rparr>),
                          update_first (\<lambda>i. iid i = k) (\<lambda>i. i\<lparr>status := st\<rparr>) docs)))"

definition patch_status :: "env \<Rightarrow> server_state \<Rightarrow> string \<Rightarrow> string
    \<Rightarrow> response \<times> server_state" where
  "patch_status e s pid st =
     (case findByIdAndUpdate e pid st (issues s) of
        None \<Rightarrow> ((500, Message ''Failed to update issue status''), s)
      | Some (None, docs) \<Rightarrow> ((404, Message ''Issue not found''), s)
      | Some (Some Issue, docs) \<Rightarrow>
          ((200, Updated (''Issue '' @ st) Issue), s\<lparr>issues := docs\<rparr>))"

text \<open>\<^verbatim>\<open>GET /api/users/count\<close>\<close>

definition users_count :: "env \<Rightarrow> server_state \<Rightarrow> response" where
  "users_count e s =
     (if users_up e then (200, Count (length (users s)))
      else (500, Message ''Error fetching user count''))"

text \<open>\<^verbatim>\<open>GET /api/users/search\<close>\<close>

definition users_search :: "env \<Rightarrow> server_state \<Rightarrow> string option \<Rightarrow> response" where
  "users_search e s q =
     (case q of
        None \<Rightarrow> (400, Message ''Name required'')
      | Some pattern \<Rightarrow>
          if pattern = [] then (400, Message ''Name required'')
          else (case regexp e pattern of
                  None \<Rightarrow> (500, Message ''Error searching users'')
                | Some matches \<Rightarrow>
                    if users_up e then (200, UserList (filter (\<lambda>u. matches (name u)) (users s)))
                    else (500, Message ''Error searching users'')))"

text \<open>\<^verbatim>\<open>DELETE /api/users/:email\<close>\<close>

definition delete_user :: "env \<Rightarrow> server_state \<Rightarrow> string \<Rightarrow> response \<times> server_state" where
  "delete_user e s em =
     (if \<not> users_up e then ((500, Message ''Failed to delete user and issues''), s)
      else case find (\<lambda>u. email u = em) (users s) of
             None \<Rightarrow> ((404, Message ''User not found''), s)
           | Some deletedUser \<Rightarrow>
               (let s1 = s\<lparr>users := delete_first (\<lambda>u. email u = em) (users s)\<rparr>
                in if \<not> issues_up e
                   then ((500, Message ''Failed to delete user and issues''), s1)
                   else ((200, Message ''User and all related issues deleted successfully''),
                         s1\<lparr>issues := filter (\<lambda>i. emailid i \<noteq> Some em) (issues s1)\<rparr>)))"

text \<open>The handler of \<^verbatim>\<open>GET /api/admin/verify\<close>\<close>

definition admin_verify :: "env \<Rightarrow> string option \<Rightarrow> response" where
  "admin_verify e authHeader =
     (case authHeader of
        None \<Rightarrow> (401, Message ''No token provided'')
      | Some h \<Rightarrow>
          if h = [] then (401, Message ''No token provided'')
          else (case index (split_on CHR '' '' h) 1 of
                  None \<Rightarrow> (403, Message ''Invalid or expired token'')
                | Some token \<Rightarrow>
                    if jwt_verify e token then (200, Valid)
                    else (403, Message ''Invalid or expired token'')))"

section \<open>The authorization gate and the two servers\<close>

text \<open>
  Modelled from the spec: \<^verbatim>\<open>middleware/authadmin.js\<close>, which exports \<^verbatim>\<open>verifyAdmin\<close>, is
  not among the sources. The spec: the middleware extracts a bearer token from the
  \<^verbatim>\<open>Authorization\<close> header; it fails with \<open>MissingCredentialsError\<close> (401) if the header
  is absent and with \<open>InvalidTokenError\<close> (403) if the signature or expiry check fails; only
  a successful verification lets the request reach the handler. The token is taken from
  the header as the handler of \<^verbatim>\<open>/api/admin/verify\<close> takes it. \<open>None\<close> is \<^verbatim>\<open>next()\<close>.
\<close>

definition bearer_token :: "string \<Rightarrow> string option" where
  "bearer_token h = index (split_on CHR '' '' h) 1"

definition verifyAdmin :: "env \<Rightarrow> string option \<Rightarrow> response option" where
  "verifyAdmin e authHeader =
     (case authHeader of
        None \<Rightarrow> Some (401, Refused MissingCredentialsError)
      | Some h \<Rightarrow>
          (case bearer_token h of
             None \<Rightarrow> Some (403, Refused InvalidTokenError)
           | Some token \<Rightarrow>
               if jwt_verify e token then None else Some (403, Refused InvalidTokenError)))"

text \<open>A route registered as \<^verbatim>\<open>app.METHOD(path, verifyAdmin, handler)\<close>.\<close>

definition admin_only :: "env \<Rightarrow> server_state \<Rightarrow> request \<Rightarrow> response \<times> server_state
    \<Rightarrow> response \<times> server_state" where
  "admin_only e s req handled =
     (case verifyAdmin e (authorization req) of
        Some refusal \<Rightarrow> (refusal, s)
      | None \<Rightarrow> handled)"

text \<open>
  \<^verbatim>\<open>upload.single("photo")\<close> in front of the submission handler. With no file part
  \<^verbatim>\<open>req.file\<close> stays undefined. An upload that the storage engine refuses goes to
  Express's error handling and the route handler does not run.
\<close>

definition server_js :: "env \<Rightarrow> server_state \<Rightarrow> request \<Rightarrow> response \<times> server_state" where
  "server_js e s req =
     (case target req of
        PostIssue photo_part b \<Rightarrow>
          (case photo_part of
             None \<Rightarrow> post_issue e s None b
           | Some p \<Rightarrow>
               (case cloudinary e p of
                  None \<Rightarrow> ((500, Unhandled), s)
                | Some f \<Rightarrow> post_issue e s (Some f) b))
      | GetIssues \<Rightarrow> admin_only e s req (get_issues e s, s)
      | GetIssuesByStatus st \<Rightarrow> (get_issues_by_status st e s, s)
      | GetIssuesByUser em st \<Rightarrow> (get_issues_by_user em st e s, s)
      | GetPending \<Rightarrow> (get_pending e s, s)
      | GetAccepted \<Rightarrow> (get_accepted e s, s)
      | PatchStatus k st \<Rightarrow> admin_only e s req (patch_status e s k st)
      | UsersCount \<Rightarrow> admin_only e s req (users_count e s, s)
      | UsersSearch q \<Rightarrow> admin_only e s req (users_search e s q, s)
      | DeleteUser em \<Rightarrow> admin_only e s req (delete_user e s em)
      | AdminVerify \<Rightarrow> admin_only e s req (admin_verify e (authorization req), s))"

text \<open>
  The server of \<^verbatim>\<open>part_000\<close>: the same routes with no middleware in front of them except
  the disk upload, and no \<^verbatim>\<open>/api/admin/verify\<close>.
\<close>

definition disk_server :: "env \<Rightarrow> server_state \<Rightarrow> request \<Rightarrow> response \<times> server_state" where
  "disk_server e s req =
     (case target req of
        PostIssue photo_part b \<Rightarrow>
          (case photo_part of
             None \<Rightarrow> post_issue_disk e s None b
           | Some p \<Rightarrow>
               (case disk_storage e s p of (f, s1) \<Rightarrow> post_issue_disk e s1 (Some f) b))
      | GetIssues \<Rightarrow> (get_issues e s, s)
      | GetIssuesByStatus st \<Rightarrow> (get_issues_by_status st e s, s)
      | GetIssuesByUser em st \<Rightarrow> (get_issues_by_user em st e s, s)
      | GetPending \<Rightarrow> (get_pending e s, s)
      | GetAccepted \<Rightarrow> (get_accepted e s, s)
      | PatchStatus k st \<Rightarrow> patch_status e s k st
      | UsersCount \<Rightarrow> (users_count e s, s)
      | UsersSearch q \<Rightarrow> (users_search e s q, s)
      | DeleteUser em \<Rightarrow> delete_user e s em
      | AdminVerify \<Rightarrow> ((404, Unhandled), s))"

text \<open>The states that a server reaches from an empty issues collection.\<close>

inductive reachable :: "(env \<Rightarrow> server_state \<Rightarrow> request \<Rightarrow> response \<times> server_state)
    \<Rightarrow> server_state \<Rightarrow> bool" for app where
  start: "issues s = [] \<Longrightarrow> reachable app s"
| request: "reachable app s \<Longrightarrow> reachable app (snd (app e s req))"

section \<open>Notions used by the properties\<close>

text \<open>The three statuses of the data model.\<close>

definition statuses :: "string set" where
  "statuses = {''pending'', ''accepted'', ''rejected''}"

text \<open>The \<^verbatim>\<open>_id\<close>s of the issues in a response, in the order of the response.\<close>

fun listed :: "response \<Rightarrow> nat list" where
  "listed (c, IssueList ds) = map iid ds"
| "listed (c, NamedIssueList ns) = map (\<lambda>n. iid (doc n)) ns"
| "listed (c, other) = []"

text \<open>Strictly descending: each identifier is greater than the ones after it.\<close>

definition descending :: "nat list \<Rightarrow> bool" where
  "descending ks = sorted_wrt (>) ks"

text \<open>The routes that the spec calls moderation-sensitive.\<close>

fun moderation_route :: "route \<Rightarrow> bool" where
  "moderation_route GetIssues = True"
| "moderation_route (PatchStatus k st) = True"
| "moderation_route UsersCount = True"
| "moderation_route (UsersSearch q) = True"
| "moderation_route (DeleteUser em) = True"
| "moderation_route AdminVerify = True"
| "moderation_route other = False"

text \<open>A request carries a verified token: a header with a token that \<^verbatim>\<open>jwt.verify\<close> accepts.\<close>

definition verified :: "env \<Rightarrow> request \<Rightarrow> bool" where
  "verified e req =
     (case authorization req of
        None \<Rightarrow> False
      | Some h \<Rightarrow> (case bearer_token h of None \<Rightarrow> False | Some token \<Rightarrow> jwt_verify e token))"

text \<open>The identifiers of the issues collection are pairwise different and already handed out.\<close>

definition ids_ok :: "server_state \<Rightarrow> bool" where
  "ids_ok s = (distinct (map iid (issues s)) \<and> list_all (\<lambda>i. iid i < next_id s) (issues s))"

section \<open>Sample values\<close>

definition cloud_photo :: string where
  "cloud_photo = ''https://res.cloudinary.com/demo/abc.png''"

definition sample_env :: env where
  "sample_env =
     \<lparr>issues_up = True, users_up = True, now = 1700000000000, today = ''11/14/2023'',
      objectId = hex_object_id,
      jwt_verify = (\<lambda>t. t = ''good-token''),
      cloudinary = (\<lambda>p. Some \<lparr>filename = ''CivicTrack_uploads/abc'',
                                path = Some cloud_photo,
                                url = None, secure_url = None\<rparr>),
      regexp = (\<lambda>p. Some (\<lambda>t. True))\<rparr>"

text \<open>The path ids of the two sample issues.\<close>

definition first_id :: string where
  "first_id = ''000000000000000000000000''"

definition second_id :: string where
  "second_id = ''000000000000000000000001''"

definition asha :: user_doc where
  "asha = \<lparr>email = ''a@x.com'', name = ''Asha'', password = ''pw''\<rparr>"

definition sample_start :: server_state where
  "sample_start = \<lparr>users = [asha], issues = [], next_id = 0, uploads = Map.empty\<rparr>"

definition pothole :: issue_form where
  "pothole =
     \<lparr>body_location = Some ''Main St'', body_emailid = Some ''a@x.com'',
      body_category = Some ''Pothole'', body_issue = Some ''road damage'',
      body_description = Some ''deep hole'', body_status = Some ''accepted''\<rparr>"

definition streetlight :: issue_form where
  "streetlight =
     \<lparr>body_location = Some ''Oak Ave'', body_emailid = Some ''nobody@x.com'',
      body_category = Some ''Lighting'', body_issue = Some ''lamp out'',
      body_description = None, body_status = None\<rparr>"

text \<open>The documents that the two sample submissions create, up to the photo address.\<close>

definition pothole_doc :: "string \<Rightarrow> issue_doc" where
  "pothole_doc ph =
     \<lparr>iid = 0, photo = ph, location = Some ''Main St'', emailid = Some ''a@x.com'',
      category = Some ''Pothole'', issue = Some ''road damage'',
      description = Some ''deep hole'', date = ''11/14/2023'', status = ''pending''\<rparr>"

definition streetlight_doc :: "string \<Rightarrow> issue_doc" where
  "streetlight_doc ph =
     \<lparr>iid = 1, photo = ph, location = Some ''Oak Ave'', emailid = Some ''nobody@x.com'',
      category = Some ''Lighting'', issue = Some ''lamp out'',
      description = None, date = ''11/14/2023'', status = ''pending''\<rparr>"

definition disk_photo :: string where
  "disk_photo = ''/uploads/1700000000000.png''"

definition cat_photo :: part where
  "cat_photo = \<lparr>originalname = ''cat.png'', content = ''CAT''\<rparr>"

definition dog_photo :: part where
  "dog_photo = \<lparr>originalname = ''dog.png'', content = ''DOG''\<rparr>"

definition anonymous :: "route \<Rightarrow> request" where
  "anonymous r = \<lparr>authorization = None, target = r\<rparr>"

definition as_admin :: "route \<Rightarrow> request" where
  "as_admin r = \<lparr>authorization = Some ''Bearer good-token'', target = r\<rparr>"

text \<open>Two submissions to each server, the first by a known user, the second not.\<close>

definition cloud_two :: server_state where
  "cloud_two =
     snd (server_js sample_env
            (snd (server_js sample_env sample_start (anonymous (PostIssue (Some cat_photo) pothole))))
            (anonymous (PostIssue (Some dog_photo) streetlight)))"

definition disk_two :: server_state where
  "disk_two =
     snd (disk_server sample_env
            (snd (disk_server sample_env sample_start (anonymous (PostIssue (Some cat_photo) pothole))))
            (anonymous (PostIssue (Some dog_photo) streetlight)))"

section \<open>Facts about the helpers\<close>

declare number_string.simps [simp del]

lemma first_match_split:
  "find P xs = Some x \<Longrightarrow>
     \<exists>ys zs. xs = ys @ x # zs \<and> P x \<and> (\<forall>y\<in>set ys. \<not> P y)
       \<and> update_first P f xs = ys @ f x # zs \<and> delete_first P xs = ys @ zs"
proof (induction xs)
  case Nil
  then show ?case by simp
next
  case (Cons a xs)
  show ?case
  proof (cases "P a")
    case True
    with Cons.prems have "a = x" by simp
    with True show ?thesis by (intro exI [of _ "[]"] exI [of _ xs]) simp
  next
    case False
    with Cons.prems have "find P xs = Some x" by simp
    from Cons.IH [OF this] obtain ys zs where
      "xs = ys @ x # zs" "P x" "\<forall>y\<in>set ys. \<not> P y"
      "update_first P f xs = ys @ f x # zs" "delete_first P xs = ys @ zs"
      by blast
    with False show ?thesis
      by (intro exI [of _ "a # ys"] exI [of _ zs]) simp
  qed
qed

lemma find_member: "\<exists>x\<in>set xs. P x \<Longrightarrow> \<exists>x. find P xs = Some x"
  by (cases "find P xs") (auto simp: find_None_iff)

lemma find_no_member: "\<not> (\<exists>x\<in>set xs. P x) \<Longrightarrow> find P xs = None"
  by (simp add: find_None_iff)

lemma find_unique:
  "distinct (map f xs) \<Longrightarrow> x \<in> set xs \<Longrightarrow> find (\<lambda>y. f y = f x) xs = Some x"
  by (induction xs) (auto simp: image_iff)

lemma admin_only_cases:
  "admin_only e s req handled = handled \<or> snd (admin_only e s req handled) = s"
  by (simp add: admin_only_def split: option.splits)

section \<open>The sample run\<close>

lemmas sample_defs =
  sample_env_def sample_start_def pothole_def streetlight_def cat_photo_def dog_photo_def
  anonymous_def as_admin_def asha_def pothole_doc_def streetlight_doc_def cloud_photo_def
  disk_photo_def

lemmas cast_defs = first_id_def second_id_def hex_object_id_def hex_digit_def

lemma sample_ids:
  "objectId sample_env first_id = Some 0"
  "objectId sample_env second_id = Some 1"
  "objectId sample_env ''7'' = None"
  by (simp_all add: sample_env_def cast_defs)

lemma sample_filename:
  "disk_filename 1700000000000 ''cat.png'' = ''1700000000000.png''"
  "disk_filename 1700000000000 ''dog.png'' = ''1700000000000.png''"
  by (simp_all add: disk_filename_def number_string.simps digit_def extname_def)

lemma cloud_one_value:
  "server_js sample_env sample_start (anonymous (PostIssue (Some cat_photo) pothole))
     = ((201, Message ''Issue submitted successfully!''),
        \<lparr>users = [asha], issues = [pothole_doc cloud_photo], next_id = 1,
         uploads = Map.empty\<rparr>)"
  by (simp add: server_js_def post_issue_def save_def new_issue_def js_or_def truthy_def
      sample_defs)

lemma disk_one_value:
  "disk_server sample_env sample_start (anonymous (PostIssue (Some cat_photo) pothole))
     = ((201, Message ''Issue submitted successfully!''),
        \<lparr>users = [asha], issues = [pothole_doc disk_photo], next_id = 1,
         uploads = [''1700000000000.png'' \<mapsto> ''CAT'']\<rparr>)"
  by (simp add: disk_server_def post_issue_disk_def disk_storage_def save_def Let_def
      new_issue_def sample_defs sample_filename)

lemma cloud_two_value:
  "cloud_two =
     \<lparr>users = [asha], issues = [pothole_doc cloud_photo, streetlight_doc cloud_photo],
      next_id = 2, uploads = Map.empty\<rparr>"
  by (simp add: cloud_two_def server_js_def post_issue_def save_def new_issue_def js_or_def
      truthy_def sample_defs)

lemma disk_two_value:
  "disk_two =
     \<lparr>users = [asha], issues = [pothole_doc disk_photo, streetlight_doc disk_photo],
      next_id = 2, uploads = [''1700000000000.png'' \<mapsto> ''DOG'']\<rparr>"
  by (simp add: disk_two_def disk_server_def post_issue_disk_def disk_storage_def save_def
      Let_def new_issue_def sample_defs sample_filename)

lemma cloud_two_reachable: "reachable server_js cloud_two"
proof -
  have "reachable server_js sample_start"
    by (rule reachable.start) (simp add: sample_start_def)
  then show ?thesis
    unfolding cloud_two_def by (intro reachable.request)
qed

section \<open>Submission\<close>

lemma save_created:
  "save e s d = ((201, m), s') \<Longrightarrow> issues s' = issues s @ [d] \<and> users s' = users s"
  by (auto simp: save_def Let_def split: if_splits)

lemma save_outage:
  "\<not> issues_up e \<Longrightarrow> save e s d = ((500, Error ''Internal Server Error''), s\<lparr>next_id := Suc (next_id s)\<rparr>)"
  by (simp add: save_def Let_def)

lemma status_new_issue: "status (new_issue e s img b) = ''pending''"
  by (simp add: new_issue_def)

lemma post_issue_created:
  "post_issue e s f b = ((201, m), s') \<Longrightarrow>
     \<exists>i. issues s' = issues s @ [i] \<and> status i = ''pending''"
  by (auto simp: post_issue_def Let_def status_new_issue
      split: option.splits if_splits dest!: save_created)

lemma post_issue_disk_created:
  "post_issue_disk e s f b = ((201, m), s') \<Longrightarrow>
     \<exists>i. issues s' = issues s @ [i] \<and> status i = ''pending''"
  by (auto simp: post_issue_disk_def Let_def status_new_issue
      split: option.splits if_splits dest!: save_created)

lemma issues_disk_storage: "issues (snd (disk_storage e s p)) = issues s"
  by (simp add: disk_storage_def Let_def)

text \<open>
  Claim C1. A submission with a file attached that succeeds (the response is 201) adds
  one Issue to the store, and the status of that Issue is \<open>pending\<close>, whatever the
  fields of the request body are, a \<open>status\<close> among them. This holds on both servers.
\<close>

theorem submission_lands_pending:
  assumes "app = server_js \<or> app = disk_server"
    and "app e s \<lparr>authorization = a, target = PostIssue (Some p) b\<rparr> = ((201, m), s')"
  shows "\<exists>i. issues s' = issues s @ [i] \<and> status i = ''pending''"
  using assms(1)
proof
  assume "app = server_js"
  with assms(2) show ?thesis
    by (auto simp: server_js_def split: option.splits dest: post_issue_created)
next
  assume "app = disk_server"
  with assms(2) obtain f s1 where "disk_storage e s p = (f, s1)"
    and "post_issue_disk e s1 (Some f) b = ((201, m), s')"
    by (auto simp: disk_server_def split: prod.splits)
  then show ?thesis
    using post_issue_disk_created [of e s1 "Some f" b m s'] issues_disk_storage [of e s p]
    by simp
qed

theorem submission_lands_pending_witness:
  "body_status pothole = Some ''accepted''
   \<and> fst (server_js sample_env sample_start (anonymous (PostIssue (Some cat_photo) pothole)))
       = (201, Message ''Issue submitted successfully!'')
   \<and> (\<exists>i. issues (snd (server_js sample_env sample_start
                          (anonymous (PostIssue (Some cat_photo) pothole))))
            = issues sample_start @ [i] \<and> status i = ''pending'')"
proof -
  let ?s' = "\<lparr>users = [asha], issues = [pothole_doc cloud_photo], next_id = 1,
              uploads = Map.empty\<rparr>"
  have run: "server_js sample_env sample_start
               \<lparr>authorization = None, target = PostIssue (Some cat_photo) pothole\<rparr>
             = ((201, Message ''Issue submitted successfully!''), ?s')"
    using cloud_one_value by (simp add: anonymous_def)
  have "\<exists>i. issues ?s' = issues sample_start @ [i] \<and> status i = ''pending''"
    using submission_lands_pending [where app = server_js, OF _ run] by simp
  then show ?thesis
    using run by (simp add: anonymous_def pothole_def)
qed

text \<open>
  Claim C5. A submission with no file attached is answered with 400 and leaves the state
  of the server, the Issue Store in it, as it was. This holds on both servers.
\<close>

theorem no_file_no_issue:
  "server_js e s \<lparr>authorization = a, target = PostIssue None b\<rparr>
     = ((400, Error ''no file uploaded''), s)
   \<and> disk_server e s \<lparr>authorization = a, target = PostIssue None b\<rparr>
     = ((400, Error ''no file uploaded''), s)"
  by (simp add: server_js_def disk_server_def post_issue_def post_issue_disk_def)

theorem no_file_no_issue_witness:
  "server_js sample_env cloud_two (anonymous (PostIssue None pothole))
     = ((400, Error ''no file uploaded''), cloud_two)
   \<and> length (issues (snd (disk_server sample_env disk_two (anonymous (PostIssue None pothole)))))
     = length (issues disk_two)"
  using no_file_no_issue [of sample_env cloud_two None pothole]
    no_file_no_issue [of sample_env disk_two None pothole]
  by (simp add: anonymous_def)

section \<open>Status transition\<close>

lemma patch_status_cast_error:
  "objectId e pid = None \<Longrightarrow>
     patch_status e s pid st = ((500, Message ''Failed to update issue status''), s)"
  by (simp add: patch_status_def findByIdAndUpdate_def)

lemma patch_status_outage:
  "\<not> issues_up e \<Longrightarrow>
     patch_status e s pid st = ((500, Message ''Failed to update issue status''), s)"
  by (simp add: patch_status_def findByIdAndUpdate_def split: option.splits)

lemma patch_status_absent:
  assumes "objectId e pid = Some k" and "issues_up e"
    and "\<not> (\<exists>i\<in>set (issues s). iid i = k)"
  shows "patch_status e s pid st = ((404, Message ''Issue not found''), s)"
proof -
  have "find (\<lambda>i. iid i = k) (issues s) = None"
    using assms(3) by (rule find_no_member)
  with assms(1,2) show ?thesis
    by (simp add: patch_status_def findByIdAndUpdate_def)
qed

lemma patch_status_present:
  assumes "objectId e pid = Some k" and "issues_up e"
    and "\<exists>i\<in>set (issues s). iid i = k"
  shows "\<exists>ys i zs. issues s = ys @ i # zs \<and> iid i = k \<and> (\<forall>j\<in>set ys. iid j \<noteq> k)
           \<and> patch_status e s pid st
               = ((200, Updated (''Issue '' @ st) (i\<lparr>status := st\<rparr>)),
                  s\<lparr>issues := ys @ i\<lparr>status := st\<rparr> # zs\<rparr>)"
proof -
  from assms(3) obtain i where found: "find (\<lambda>i. iid i = k) (issues s) = Some i"
    using find_member [of "issues s" "\<lambda>i. iid i = k"] by blast
  from first_match_split [OF found, of "\<lambda>i. i\<lparr>status := st\<rparr>"] obtain ys zs where
    parts: "issues s = ys @ i # zs" "iid i = k" "\<forall>j\<in>set ys. iid j \<noteq> k"
      "update_first (\<lambda>i. iid i = k) (\<lambda>i. i\<lparr>status := st\<rparr>) (issues s)
         = ys @ i\<lparr>status := st\<rparr> # zs"
    by blast
  have "patch_status e s pid st
          = ((200, Updated (''Issue '' @ st) (i\<lparr>status := st\<rparr>)),
             s\<lparr>issues := ys @ i\<lparr>status := st\<rparr> # zs\<rparr>)"
    using assms(1,2) found parts(4) by (simp add: patch_status_def findByIdAndUpdate_def)
  with parts(1-3) show ?thesis by blast
qed

lemma patch_status_state:
  "snd (patch_status e s pid st) = s
   \<or> (\<exists>k. snd (patch_status e s pid st)
            = s\<lparr>issues := update_first (\<lambda>i. iid i = k) (\<lambda>i. i\<lparr>status := st\<rparr>) (issues s)\<rparr>)"
  by (auto simp: patch_status_def findByIdAndUpdate_def split: option.splits)

text \<open>
  Claim C4, as the code has it. A status transition whose path id is no ObjectId fails
  with 500 and leaves the state as it was. A status transition whose path id is an
  ObjectId, when the issues collection answers: if no Issue has that id, the response is
  404 and the state is as before; otherwise the first Issue with that id is the only one
  rewritten, its status becomes the string of the request, whatever that string and the
  former status are, and the rewritten record is returned with 200.
\<close>

theorem status_transition:
  "case objectId e pid of
     None \<Rightarrow> patch_status e s pid st = ((500, Message ''Failed to update issue status''), s)
   | Some k \<Rightarrow>
       issues_up e \<longrightarrow>
         (if (\<exists>i\<in>set (issues s). iid i = k)
          then (\<exists>ys i zs. issues s = ys @ i # zs \<and> iid i = k \<and> (\<forall>j\<in>set ys. iid j \<noteq> k)
                  \<and> patch_status e s pid st
                      = ((200, Updated (''Issue '' @ st) (i\<lparr>status := st\<rparr>)),
                         s\<lparr>issues := ys @ i\<lparr>status := st\<rparr> # zs\<rparr>))
          else patch_status e s pid st = ((404, Message ''Issue not found''), s))"
proof (cases "objectId e pid")
  case None
  then show ?thesis
    by (simp add: patch_status_cast_error)
next
  case (Some k)
  show ?thesis
  proof (cases "\<exists>i\<in>set (issues s). iid i = k")
    case True
    then show ?thesis
      using Some patch_status_present [OF Some _ True, of st] by simp
  next
    case False
    then show ?thesis
      using Some patch_status_absent [OF Some _ False, of st] by simp
  qed
qed

theorem status_transition_witness:
  "issues_up sample_env
   \<and> map iid (issues cloud_two) = [0, 1]
   \<and> objectId sample_env ''7'' = None
   \<and> patch_status sample_env cloud_two ''7'' ''accepted''
       = ((500, Message ''Failed to update issue status''), cloud_two)
   \<and> objectId sample_env ''000000000000000000000007'' = Some 7
   \<and> patch_status sample_env cloud_two ''000000000000000000000007'' ''accepted''
       = ((404, Message ''Issue not found''), cloud_two)
   \<and> objectId sample_env second_id = Some 1
   \<and> (\<exists>ys i zs. issues cloud_two = ys @ i # zs \<and> iid i = 1 \<and> list_all (\<lambda>j. iid j \<noteq> 1) ys
         \<and> patch_status sample_env cloud_two second_id ''on hold''
             = ((200, Updated (''Issue '' @ ''on hold'') (i\<lparr>status := ''on hold''\<rparr>)),
                cloud_two\<lparr>issues := ys @ i\<lparr>status := ''on hold''\<rparr> # zs\<rparr>))"
proof -
  have up: "issues_up sample_env"
    by (simp add: sample_env_def)
  have seven: "objectId sample_env ''000000000000000000000007'' = Some 7"
    by (simp add: sample_env_def cast_defs)
  have ids: "map iid (issues cloud_two) = [0, 1]"
    by (simp add: cloud_two_value pothole_doc_def streetlight_doc_def)
  have absent: "\<not> (\<exists>i\<in>set (issues cloud_two). iid i = 7)"
    by (simp add: cloud_two_value pothole_doc_def streetlight_doc_def)
  have present: "\<exists>i\<in>set (issues cloud_two). iid i = 1"
    by (simp add: cloud_two_value pothole_doc_def streetlight_doc_def)
  show ?thesis
    using up ids absent present seven sample_ids(2,3)
      status_transition [where e = sample_env and pid = "''7''" and s = cloud_two
        and st = "''accepted''"]
      status_transition [where e = sample_env and pid = "''000000000000000000000007''"
        and s = cloud_two and st = "''accepted''"]
      status_transition [where e = sample_env and pid = second_id and s = cloud_two
        and st = "''on hold''"]
    by (simp add: list_all_iff)
qed

text \<open>
  Claim C4 as stated fails: no sample issue has the id \<^verbatim>\<open>7\<close>, the issues collection
  answers, and an administrator's transition at \<^verbatim>\<open>/api/issues/7/status\<close> is answered
  with 500, not 404: the id is cast before the lookup and the cast throws.
\<close>

theorem malformed_id_not_404:
  "issues_up sample_env
   \<and> verified sample_env (as_admin (PatchStatus ''7'' ''accepted''))
   \<and> objectId sample_env ''7'' = None
   \<and> server_js sample_env cloud_two (as_admin (PatchStatus ''7'' ''accepted''))
       = ((500, Message ''Failed to update issue status''), cloud_two)
   \<and> disk_server sample_env disk_two (anonymous (PatchStatus ''7'' ''accepted''))
       = ((500, Message ''Failed to update issue status''), disk_two)"
  by (simp add: sample_ids patch_status_cast_error server_js_def disk_server_def admin_only_def
      verifyAdmin_def verified_def bearer_token_def as_admin_def anonymous_def sample_env_def
      cast_defs)

section \<open>The status set\<close>

lemma set_update_first: "set (update_first P f xs) \<subseteq> set xs \<union> f ` set xs"
  by (induction xs) auto

lemma save_statuses:
  assumes "\<forall>i\<in>set (issues s). status i \<in> statuses" and "status d \<in> statuses"
  shows "\<forall>i\<in>set (issues (snd (save e s d))). status i \<in> statuses"
  using assms by (simp add: save_def Let_def)

lemma pending_known: "status (new_issue e s img b) \<in> statuses"
  by (simp add: new_issue_def statuses_def)

lemma post_issue_statuses:
  assumes "\<forall>i\<in>set (issues s). status i \<in> statuses"
  shows "\<forall>i\<in>set (issues (snd (post_issue e s f b))). status i \<in> statuses"
proof (cases "\<exists>img. post_issue e s f b = save e s (new_issue e s img b)")
  case True
  then show ?thesis
    using save_statuses [OF assms pending_known] by auto
next
  case False
  then have "snd (post_issue e s f b) = s"
    by (auto simp: post_issue_def Let_def split: option.splits)
  with assms show ?thesis by simp
qed

lemma post_issue_disk_statuses:
  assumes "\<forall>i\<in>set (issues s). status i \<in> statuses"
  shows "\<forall>i\<in>set (issues (snd (post_issue_disk e s f b))). status i \<in> statuses"
proof (cases f)
  case None
  with assms show ?thesis by (simp add: post_issue_disk_def)
next
  case (Some g)
  then show ?thesis
    using save_statuses [OF assms pending_known] by (simp add: post_issue_disk_def)
qed

lemma patch_status_statuses:
  assumes "\<forall>i\<in>set (issues s). status i \<in> statuses" and "st \<in> statuses"
  shows "\<forall>i\<in>set (issues (snd (patch_status e s pid st))). status i \<in> statuses"
proof -
  from patch_status_state [of e s pid st] consider
    (same) "snd (patch_status e s pid st) = s"
  | (rewritten) k where "snd (patch_status e s pid st)
      = s\<lparr>issues := update_first (\<lambda>i. iid i = k) (\<lambda>i. i\<lparr>status := st\<rparr>) (issues s)\<rparr>"
    by blast
  then show ?thesis
  proof cases
    case same
    with assms(1) show ?thesis by simp
  next
    case rewritten
    have "set (update_first (\<lambda>i. iid i = k) (\<lambda>i. i\<lparr>status := st\<rparr>) (issues s))
            \<subseteq> set (issues s) \<union> (\<lambda>i. i\<lparr>status := st\<rparr>) ` set (issues s)"
      by (rule set_update_first)
    with assms show ?thesis
      by (auto simp: rewritten)
  qed
qed

lemma delete_user_statuses:
  assumes "\<forall>i\<in>set (issues s). status i \<in> statuses"
  shows "\<forall>i\<in>set (issues (snd (delete_user e s em))). status i \<in> statuses"
  using assms by (auto simp: delete_user_def Let_def split: option.splits)

lemma admin_only_statuses:
  assumes "\<forall>i\<in>set (issues s). status i \<in> statuses"
    and "\<forall>i\<in>set (issues (snd handled)). status i \<in> statuses"
  shows "\<forall>i\<in>set (issues (snd (admin_only e s req handled))). status i \<in> statuses"
  using admin_only_cases [of e s req handled] assms by auto

lemma admin_only_read_statuses:
  assumes "\<forall>i\<in>set (issues s). status i \<in> statuses"
  shows "\<forall>i\<in>set (issues (snd (admin_only e s req (r, s)))). status i \<in> statuses"
  using admin_only_statuses [OF assms, of "(r, s)"] assms by simp

text \<open>
  Claim C2, as the code has it. The status of a persisted Issue is one string. A
  submission stores \<open>pending\<close> and a user deletion only removes issues, so every
  request other than a status transition keeps all statuses in the three-element set; a
  status transition stores the string of the request unchecked, and keeps them there
  when that string is one of the three.
\<close>

theorem status_set_preserved:
  assumes "app = server_js \<or> app = disk_server"
    and "\<forall>i\<in>set (issues s). status i \<in> statuses"
    and "case target req of PatchStatus k st \<Rightarrow> st \<in> statuses | other \<Rightarrow> True"
  shows "\<forall>i\<in>set (issues (snd (app e s req))). status i \<in> statuses"
  using assms(1)
proof
  assume app: "app = server_js"
  show ?thesis
  proof (cases "target req")
    case (PostIssue photo_part b)
    then show ?thesis
      using assms(2) post_issue_statuses [OF assms(2)]
      by (simp add: app server_js_def split: option.splits)
  next
    case (PatchStatus k st)
    with assms(3) have "st \<in> statuses" by simp
    then show ?thesis
      using admin_only_statuses [OF assms(2) patch_status_statuses [OF assms(2)]] PatchStatus
      by (simp add: app server_js_def)
  next
    case (DeleteUser em)
    then show ?thesis
      using admin_only_statuses [OF assms(2) delete_user_statuses [OF assms(2)]]
      by (simp add: app server_js_def)
  qed (use assms(2) admin_only_read_statuses [OF assms(2)] in
      \<open>simp_all add: app server_js_def\<close>)
next
  assume app: "app = disk_server"
  show ?thesis
  proof (cases "target req")
    case (PostIssue photo_part b)
    show ?thesis
    proof (cases photo_part)
      case None
      with PostIssue show ?thesis
        using post_issue_disk_statuses [OF assms(2)] by (simp add: app disk_server_def)
    next
      case (Some p)
      have "\<forall>i\<in>set (issues (snd (disk_storage e s p))). status i \<in> statuses"
        using assms(2) by (simp add: disk_storage_def Let_def)
      from post_issue_disk_statuses [OF this] PostIssue Some show ?thesis
        by (simp add: app disk_server_def split: prod.splits)
    qed
  next
    case (PatchStatus k st)
    with assms(3) have "st \<in> statuses" by simp
    then show ?thesis
      using patch_status_statuses [OF assms(2)] PatchStatus by (simp add: app disk_server_def)
  next
    case (DeleteUser em)
    then show ?thesis
      using delete_user_statuses [OF assms(2)] by (simp add: app disk_server_def)
  qed (use assms(2) in \<open>simp_all add: app disk_server_def\<close>)
qed

theorem status_set_preserved_witness:
  "map status (issues cloud_two) = [''pending'', ''pending'']
   \<and> ''rejected'' \<in> statuses
   \<and> map status (issues (snd (server_js sample_env cloud_two (as_admin (PatchStatus second_id ''rejected'')))))
       = [''pending'', ''rejected'']
   \<and> list_all (\<lambda>i. status i \<in> statuses)
        (issues (snd (server_js sample_env cloud_two (as_admin (PatchStatus second_id ''rejected'')))))"
proof -
  have inv: "\<forall>i\<in>set (issues cloud_two). status i \<in> statuses"
    by (simp add: cloud_two_value pothole_doc_def streetlight_doc_def statuses_def)
  have before: "map status (issues cloud_two) = [''pending'', ''pending'']"
    by (simp add: cloud_two_value pothole_doc_def streetlight_doc_def)
  have ok: "case target (as_admin (PatchStatus second_id ''rejected'')) of
              PatchStatus k st \<Rightarrow> st \<in> statuses | other \<Rightarrow> True"
    by (simp add: as_admin_def statuses_def)
  have run: "map status (issues (snd (server_js sample_env cloud_two
                                        (as_admin (PatchStatus second_id ''rejected'')))))
               = [''pending'', ''rejected'']"
    by (simp add: cloud_two_value sample_defs server_js_def admin_only_def verifyAdmin_def
        bearer_token_def patch_status_def findByIdAndUpdate_def cast_defs)
  have "list_all (\<lambda>i. status i \<in> statuses)
          (issues (snd (server_js sample_env cloud_two (as_admin (PatchStatus second_id ''rejected'')))))"
    using status_set_preserved [where app = server_js, OF _ inv ok, of sample_env]
    by (simp add: list_all_iff)
  with before run show ?thesis by (simp add: statuses_def)
qed

text \<open>
  Claim C2 as stated fails: an administrator's transition of the second sample issue to
  \<open>on hold\<close> is served, and the state it reaches holds a status outside the set.
\<close>

theorem status_outside_set:
  "reachable server_js (snd (server_js sample_env cloud_two (as_admin (PatchStatus second_id ''on hold''))))
   \<and> map status (issues (snd (server_js sample_env cloud_two (as_admin (PatchStatus second_id ''on hold'')))))
       = [''pending'', ''on hold'']
   \<and> ''on hold'' \<notin> statuses"
proof -
  have "map status (issues (snd (server_js sample_env cloud_two
                                   (as_admin (PatchStatus second_id ''on hold'')))))
          = [''pending'', ''on hold'']"
    by (simp add: cloud_two_value sample_defs server_js_def admin_only_def verifyAdmin_def
        bearer_token_def patch_status_def findByIdAndUpdate_def cast_defs)
  moreover have "''on hold'' \<notin> statuses"
    by (simp add: statuses_def)
  ultimately show ?thesis
    using reachable.request [OF cloud_two_reachable] by simp
qed

section \<open>Cascading user deletion\<close>

text \<open>
  Claim C6. A user deletion that the users collection answers: when no User has the given
  email, the response is 404 and the state, the Issue Store in it, is as before; when a
  User has it, and the issues collection answers too, the first such User is removed,
  the issues with that \<open>emailid\<close> are removed, and no Issue with that \<open>emailid\<close> is left.
\<close>

theorem cascading_user_deletion:
  assumes "users_up e"
  shows "if (\<exists>u\<in>set (users s). email u = em)
         then (issues_up e \<longrightarrow>
                (\<exists>ys u zs. users s = ys @ u # zs \<and> email u = em \<and> (\<forall>v\<in>set ys. email v \<noteq> em)
                   \<and> delete_user e s em
                       = ((200, Message ''User and all related issues deleted successfully''),
                          s\<lparr>users := ys @ zs,
                            issues := filter (\<lambda>i. emailid i \<noteq> Some em) (issues s)\<rparr>))
                \<and> filter (\<lambda>i. emailid i = Some em) (issues (snd (delete_user e s em))) = [])
         else delete_user e s em = ((404, Message ''User not found''), s)"
proof (cases "\<exists>u\<in>set (users s). email u = em")
  case True
  then obtain u where found: "find (\<lambda>u. email u = em) (users s) = Some u"
    using find_member [of "users s" "\<lambda>u. email u = em"] by blast
  from first_match_split [OF found, of id] obtain ys zs where
    parts: "users s = ys @ u # zs" "email u = em" "\<forall>v\<in>set ys. email v \<noteq> em"
      "delete_first (\<lambda>u. email u = em) (users s) = ys @ zs"
    by blast
  have "issues_up e \<Longrightarrow> delete_user e s em
          = ((200, Message ''User and all related issues deleted successfully''),
             s\<lparr>users := ys @ zs, issues := filter (\<lambda>i. emailid i \<noteq> Some em) (issues s)\<rparr>)"
    using assms found parts(4) by (simp add: delete_user_def Let_def)
  moreover have "issues_up e \<Longrightarrow>
      filter (\<lambda>i. emailid i = Some em) (issues (snd (delete_user e s em))) = []"
    using assms found by (simp add: delete_user_def Let_def filter_empty_conv)
  ultimately show ?thesis using True parts(1-3) by auto
next
  case False
  then have "find (\<lambda>u. email u = em) (users s) = None"
    by (rule find_no_member)
  with assms False show ?thesis
    by (simp add: delete_user_def)
qed

theorem cascading_user_deletion_witness:
  "users_up sample_env \<and> issues_up sample_env
   \<and> map email (users disk_two) = [''a@x.com'']
   \<and> delete_user sample_env disk_two ''zed@x.com'' = ((404, Message ''User not found''), disk_two)
   \<and> filter (\<lambda>i. emailid i = Some ''a@x.com'')
        (issues (snd (delete_user sample_env disk_two ''a@x.com''))) = []
   \<and> filter (\<lambda>i. emailid i = Some ''a@x.com'') (issues disk_two) = [pothole_doc disk_photo]"
proof -
  have up: "users_up sample_env" "issues_up sample_env"
    by (simp_all add: sample_env_def)
  have emails: "map email (users disk_two) = [''a@x.com'']"
    by (simp add: disk_two_value asha_def)
  have absent: "\<not> (\<exists>u\<in>set (users disk_two). email u = ''zed@x.com'')"
    by (simp add: disk_two_value asha_def)
  have present: "\<exists>u\<in>set (users disk_two). email u = ''a@x.com''"
    by (simp add: disk_two_value asha_def)
  have before: "filter (\<lambda>i. emailid i = Some ''a@x.com'') (issues disk_two)
                  = [pothole_doc disk_photo]"
    by (simp add: disk_two_value pothole_doc_def streetlight_doc_def)
  show ?thesis
    using up emails absent present before
      cascading_user_deletion [OF up(1), of disk_two "''zed@x.com''"]
      cascading_user_deletion [OF up(1), of disk_two "''a@x.com''"]
    by simp
qed

lemma delete_user_half_done:
  "users_up e \<Longrightarrow> \<not> issues_up e \<Longrightarrow> find (\<lambda>u. email u = em) (users s) = Some u \<Longrightarrow>
     delete_user e s em
       = ((500, Message ''Failed to delete user and issues''),
          s\<lparr>users := delete_first (\<lambda>u. email u = em) (users s)\<rparr>)"
  by (simp add: delete_user_def Let_def)

lemma delete_user_outage:
  "\<not> users_up e \<Longrightarrow>
     delete_user e s em = ((500, Message ''Failed to delete user and issues''), s)"
  by (simp add: delete_user_def)

section \<open>Identifiers in reachable states\<close>

lemma save_ids_ok:
  assumes "ids_ok s" and "iid d = next_id s"
  shows "ids_ok (snd (save e s d))"
proof -
  have fresh: "next_id s \<notin> iid ` set (issues s)"
    using assms(1) by (auto simp: ids_ok_def list_all_iff)
  have bound: "list_all (\<lambda>i. iid i < Suc (next_id s)) (issues s)"
    using assms(1) by (auto simp: ids_ok_def list_all_iff)
  show ?thesis
    using assms fresh bound by (simp add: save_def Let_def ids_ok_def)
qed

lemma iid_new_issue: "iid (new_issue e s img b) = next_id s"
  by (simp add: new_issue_def)

lemma post_issue_ids_ok:
  assumes "ids_ok s"
  shows "ids_ok (snd (post_issue e s f b))"
proof (cases "\<exists>img. post_issue e s f b = save e s (new_issue e s img b)")
  case True
  then show ?thesis
    using save_ids_ok [OF assms iid_new_issue] by auto
next
  case False
  then have "snd (post_issue e s f b) = s"
    by (auto simp: post_issue_def Let_def split: option.splits)
  with assms show ?thesis by simp
qed

lemma post_issue_disk_ids_ok:
  assumes "ids_ok s"
  shows "ids_ok (snd (post_issue_disk e s f b))"
proof (cases f)
  case None
  with assms show ?thesis by (simp add: post_issue_disk_def)
next
  case (Some g)
  then show ?thesis
    using save_ids_ok [OF assms iid_new_issue] by (simp add: post_issue_disk_def)
qed

lemma disk_storage_ids_ok: "ids_ok s \<Longrightarrow> ids_ok (snd (disk_storage e s p))"
  by (simp add: disk_storage_def Let_def ids_ok_def)

lemma iid_update_first:
  "map iid (update_first P (\<lambda>i. i\<lparr>status := st\<rparr>) xs) = map iid xs"
  by (induction xs) auto

lemma patch_status_ids_ok:
  assumes "ids_ok s"
  shows "ids_ok (snd (patch_status e s pid st))"
proof -
  from patch_status_state [of e s pid st] consider
    (same) "snd (patch_status e s pid st) = s"
  | (rewritten) k where "snd (patch_status e s pid st)
      = s\<lparr>issues := update_first (\<lambda>i. iid i = k) (\<lambda>i. i\<lparr>status := st\<rparr>) (issues s)\<rparr>"
    by blast
  then show ?thesis
  proof cases
    case same
    with assms show ?thesis by simp
  next
    case rewritten
    let ?ys = "update_first (\<lambda>i. iid i = k) (\<lambda>i. i\<lparr>status := st\<rparr>) (issues s)"
    have "map iid ?ys = map iid (issues s)"
      by (rule iid_update_first)
    moreover have "list_all (\<lambda>i. iid i < next_id s) ?ys
                     = list_all (\<lambda>n. n < next_id s) (map iid ?ys)"
      by (simp add: list_all_iff)
    ultimately have "ids_ok (s\<lparr>issues := ?ys\<rparr>)"
      using assms by (simp add: ids_ok_def list_all_iff)
    then show ?thesis
      by (simp add: rewritten)
  qed
qed

lemma delete_user_ids_ok:
  assumes "ids_ok s"
  shows "ids_ok (snd (delete_user e s em))"
  using assms
  by (auto simp: delete_user_def Let_def ids_ok_def list_all_iff distinct_map_filter
      split: option.splits)

lemma admin_only_ids_ok:
  assumes "ids_ok s" and "ids_ok (snd handled)"
  shows "ids_ok (snd (admin_only e s req handled))"
  using admin_only_cases [of e s req handled] assms by auto

lemma server_js_ids_ok:
  assumes "ids_ok s"
  shows "ids_ok (snd (server_js e s req))"
proof (cases "target req")
  case (PostIssue photo_part b)
  then show ?thesis
    using assms post_issue_ids_ok [OF assms]
    by (simp add: server_js_def split: option.splits)
next
  case (PatchStatus k st)
  then show ?thesis
    using admin_only_ids_ok [OF assms patch_status_ids_ok [OF assms]]
    by (simp add: server_js_def)
next
  case (DeleteUser em)
  then show ?thesis
    using admin_only_ids_ok [OF assms delete_user_ids_ok [OF assms]]
    by (simp add: server_js_def)
qed (use assms admin_only_ids_ok [OF assms, of "(r, s)" for r] in
      \<open>simp_all add: server_js_def\<close>)

lemma disk_server_ids_ok:
  assumes "ids_ok s"
  shows "ids_ok (snd (disk_server e s req))"
proof (cases "target req")
  case (PostIssue photo_part b)
  show ?thesis
  proof (cases photo_part)
    case None
    with PostIssue show ?thesis
      using post_issue_disk_ids_ok [OF assms] by (simp add: disk_server_def)
  next
    case (Some p)
    obtain f s1 where stored: "disk_storage e s p = (f, s1)"
      by (cases "disk_storage e s p")
    then have "ids_ok s1"
      using disk_storage_ids_ok [OF assms, of e p] by simp
    from post_issue_disk_ids_ok [OF this] PostIssue Some stored show ?thesis
      by (simp add: disk_server_def)
  qed
next
  case (PatchStatus k st)
  then show ?thesis
    using patch_status_ids_ok [OF assms] by (simp add: disk_server_def)
next
  case (DeleteUser em)
  then show ?thesis
    using delete_user_ids_ok [OF assms] by (simp add: disk_server_def)
qed (use assms in \<open>simp_all add: disk_server_def\<close>)

lemma reachable_ids_ok:
  assumes "app = server_js \<or> app = disk_server" and "reachable app s"
  shows "ids_ok s"
  using assms(2)
proof (induction rule: reachable.induct)
  case (start s)
  then show ?case by (simp add: ids_ok_def)
next
  case (request s e req)
  then show ?case
    using assms(1) server_js_ids_ok disk_server_ids_ok by auto
qed

lemma reachable_distinct_ids:
  "app = server_js \<or> app = disk_server \<Longrightarrow> reachable app s \<Longrightarrow> distinct (map iid (issues s))"
  using reachable_ids_ok [of app s] by (simp add: ids_ok_def)

section \<open>Listings\<close>

text \<open>
  Claim C10. \<^verbatim>\<open>GET /pending\<close> is registered on both servers with no middleware: whatever
  the \<^verbatim>\<open>Authorization\<close> header is, when the issues collection answers, the response is
  200 with exactly the stored documents whose status is \<open>pending\<close>, as documents with
  no \<open>username\<close>, in the order of the store; the state is as before.
\<close>

theorem pending_listing:
  assumes "issues_up e" and "app = server_js \<or> app = disk_server"
  shows "app e s \<lparr>authorization = a, target = GetPending\<rparr>
           = ((200, IssueList (filter (\<lambda>i. status i = ''pending'') (issues s))), s)"
  using assms by (auto simp: server_js_def disk_server_def get_pending_def)

theorem pending_listing_witness:
  "issues_up sample_env
   \<and> server_js sample_env cloud_two (anonymous GetPending)
       = ((200, IssueList [pothole_doc cloud_photo, streetlight_doc cloud_photo]), cloud_two)"
proof -
  have up: "issues_up sample_env"
    by (simp add: sample_env_def)
  have "filter (\<lambda>i. status i = ''pending'') (issues cloud_two)
          = [pothole_doc cloud_photo, streetlight_doc cloud_photo]"
    by (simp add: cloud_two_value pothole_doc_def streetlight_doc_def)
  then show ?thesis
    using up pending_listing [where app = server_js, OF up, of cloud_two None]
    by (simp add: anonymous_def)
qed

lemma get_pending_outage:
  "\<not> issues_up e \<Longrightarrow> get_pending e s = (500, Message ''Error fetching pending issues'')"
  by (simp add: get_pending_def)

lemma sort_desc_strict:
  assumes "distinct (map iid xs)"
  shows "sorted_wrt (>) (map iid (sort_desc (filter P xs)))"
proof -
  let ?ys = "filter P xs"
  have d: "distinct (map iid ?ys)"
    using assms by (rule distinct_map_filter)
  have "distinct (map iid (sort_key iid ?ys))"
    using d by (simp add: distinct_map)
  moreover have "sorted (map iid (sort_key iid ?ys))"
    by simp
  ultimately have "sorted_wrt (<) (map iid (sort_key iid ?ys))"
    by (simp add: strict_sorted_iff)
  then have "sorted_wrt (>) (rev (map iid (sort_key iid ?ys)))"
    by (simp add: sorted_wrt_rev)
  then show ?thesis
    by (simp add: sort_desc_def rev_map)
qed

lemma listed_aggregated:
  "listed (aggregated msg flt e s) = [] \<or>
   listed (aggregated msg flt e s) = map iid (sort_desc (filter flt (issues s)))"
  by (simp add: aggregated_def issuesWithNames_def with_name_def comp_def)

lemma aggregated_descending:
  assumes "distinct (map iid (issues s))"
  shows "sorted_wrt (>) (listed (aggregated msg flt e s))"
  using listed_aggregated [of msg flt e s] sort_desc_strict [OF assms, of flt]
  by auto


text \<open>
  Claim C7, as the code has it. In every state of the Issue Store whose ids are pairwise
  different, as they are in every reachable state, each of the four aggregated listings (all issues, by status, by submitter
  with the optional status, accepted) returns its issues in strictly descending order
  of id. \<^verbatim>\<open>GET /pending\<close> is not sorted: it lists the pending issues in the order of
  the store.
\<close>

theorem aggregated_listings_descending:
  assumes "distinct (map iid (issues s))"
    and "view = get_issues \<or> view = get_issues_by_status st
         \<or> view = get_issues_by_user em q \<or> view = get_accepted"
  shows "descending (listed (view e s))
       \<and> (issues_up e \<longrightarrow>
            listed (get_pending e s) = map iid (filter (\<lambda>i. status i = ''pending'') (issues s)))"
  using assms(2) aggregated_descending [OF assms(1)]
  by (auto simp: get_issues_def get_issues_by_status_def get_issues_by_user_def get_accepted_def
      get_pending_def descending_def)

theorem aggregated_listings_descending_witness:
  "distinct (map iid (issues cloud_two)) \<and> issues_up sample_env
   \<and> listed (get_issues sample_env cloud_two) = [1, 0]
   \<and> descending (listed (get_issues sample_env cloud_two))
   \<and> listed (get_pending sample_env cloud_two) = [0, 1]"
proof -
  have d: "distinct (map iid (issues cloud_two))"
    by (simp add: cloud_two_value pothole_doc_def streetlight_doc_def)
  have up: "issues_up sample_env"
    by (simp add: sample_env_def)
  have l: "listed (get_issues sample_env cloud_two) = [1, 0]"
    by (simp add: cloud_two_value sample_defs get_issues_def aggregated_def issuesWithNames_def
        with_name_def sort_desc_def)
  have p: "map iid (filter (\<lambda>i. status i = ''pending'') (issues cloud_two)) = [0, 1]"
    by (simp add: cloud_two_value pothole_doc_def streetlight_doc_def)
  from d up l p aggregated_listings_descending [where view = get_issues and e = sample_env
      and s = cloud_two and st = "''pending''" and em = "''a@x.com''" and q = None]
  show ?thesis by simp
qed

text \<open>
  Claim C7 as stated fails: after the two sample submissions, a reachable state,
  \<^verbatim>\<open>GET /pending\<close> lists the ids 0, 1, in ascending order.
\<close>

theorem pending_not_descending:
  "listed (fst (server_js sample_env cloud_two (anonymous GetPending))) = [0, 1]
   \<and> \<not> descending (listed (fst (server_js sample_env cloud_two (anonymous GetPending))))"
proof -
  have "listed (fst (server_js sample_env cloud_two (anonymous GetPending))) = [0, 1]"
    by (simp add: cloud_two_value sample_defs server_js_def get_pending_def)
  then show ?thesis by (simp add: descending_def)
qed

section \<open>Aggregation\<close>

lemma aggregated_items:
  "aggregated msg flt e s = (c, NamedIssueList ns) \<Longrightarrow>
     ns = map (with_name s) (sort_desc (filter flt (issues s)))"
  by (auto simp: aggregated_def issuesWithNames_def split: if_splits option.splits)

lemma username_with_name:
  "username (with_name s item)
     = (case find (\<lambda>u. Some (email u) = emailid item) (users s) of
          Some u \<Rightarrow> name u | None \<Rightarrow> ''Anonymous User'')"
  by (simp add: with_name_def findOne_user_def)

lemma doc_with_name: "doc (with_name s item) = item"
  by (simp add: with_name_def)

lemma with_name_known:
  assumes "distinct (map email (users s))" "u \<in> set (users s)" "Some (email u) = emailid item"
  shows "username (with_name s item) = name u"
proof -
  have same: "(\<lambda>v. Some (email v) = emailid item) = (\<lambda>v. email v = email u)"
    using assms(3) [symmetric] by (auto simp: fun_eq_iff)
  have "find (\<lambda>v. Some (email v) = emailid item) (users s) = Some u"
    unfolding same using assms(1,2) by (rule find_unique)
  then show ?thesis by (simp add: username_with_name)
qed

lemma with_name_unknown:
  assumes "\<forall>u\<in>set (users s). Some (email u) \<noteq> emailid item"
  shows "username (with_name s item) = ''Anonymous User''"
proof -
  have "find (\<lambda>v. Some (email v) = emailid item) (users s) = None"
    using assms by (simp add: find_None_iff)
  then show ?thesis by (simp add: username_with_name)
qed


text \<open>
  Claim C8. In the response of each of the four aggregated views, with the emails of the
  users collection pairwise different (the spec's unique identity key): an Issue
  whose \<open>emailid\<close> is the email of a User carries that User's name as \<open>username\<close>, and an
  Issue whose \<open>emailid\<close> is the email of no User carries \<open>Anonymous User\<close>.
\<close>

theorem username_resolution:
  assumes "view = get_issues \<or> view = get_issues_by_status st
           \<or> view = get_issues_by_user em q \<or> view = get_accepted"
    and "view e s = (c, NamedIssueList ns)"
    and "n \<in> set ns"
    and "distinct (map email (users s))"
  shows "(\<forall>u\<in>set (users s). Some (email u) = emailid (doc n) \<longrightarrow> username n = name u)
       \<and> ((\<forall>u\<in>set (users s). Some (email u) \<noteq> emailid (doc n)) \<longrightarrow> username n = ''Anonymous User'')"
proof -
  from assms(1,2) obtain msg flt where "aggregated msg flt e s = (c, NamedIssueList ns)"
    by (auto simp: get_issues_def get_issues_by_status_def get_issues_by_user_def get_accepted_def)
  then have "ns = map (with_name s) (sort_desc (filter flt (issues s)))"
    by (rule aggregated_items)
  with assms(3) obtain item where n: "n = with_name s item"
    by auto
  show ?thesis
    using with_name_known [OF assms(4), of _ item] with_name_unknown [of s item]
    by (auto simp: n doc_with_name)
qed


theorem username_resolution_witness:
  "get_issues sample_env cloud_two
     = (200, NamedIssueList
          [\<lparr>doc = streetlight_doc cloud_photo, username = ''Anonymous User''\<rparr>,
           \<lparr>doc = pothole_doc cloud_photo, username = ''Asha''\<rparr>])
   \<and> users cloud_two = [asha]
   \<and> distinct (map email (users cloud_two))
   \<and> Some (email asha) = emailid (pothole_doc cloud_photo)
   \<and> username \<lparr>doc = pothole_doc cloud_photo, username = ''Asha''\<rparr> = name asha
   \<and> Some (email asha) \<noteq> emailid (streetlight_doc cloud_photo)"
proof -
  let ?ns = "[\<lparr>doc = streetlight_doc cloud_photo, username = ''Anonymous User''\<rparr>,
              \<lparr>doc = pothole_doc cloud_photo, username = ''Asha''\<rparr>]"
  have v: "get_issues sample_env cloud_two = (200, NamedIssueList ?ns)"
    by (simp add: cloud_two_value sample_defs get_issues_def aggregated_def issuesWithNames_def
        with_name_def sort_desc_def findOne_user_def)
  have d: "distinct (map email (users cloud_two))"
    by (simp add: cloud_two_value)
  have m: "\<lparr>doc = pothole_doc cloud_photo, username = ''Asha''\<rparr> \<in> set ?ns"
    by simp
  from username_resolution [where view = get_issues and e = sample_env and s = cloud_two
      and st = "''pending''" and em = "''a@x.com''" and q = None, OF _ v m d]
  show ?thesis
    using v d by (simp add: cloud_two_value sample_defs)
qed

section \<open>The authorization gate\<close>

lemma verifyAdmin_unverified:
  assumes "\<not> verified e req"
  shows "verifyAdmin e (authorization req)
           = Some (if authorization req = None then (401, Refused MissingCredentialsError)
                   else (403, Refused InvalidTokenError))"
  using assms by (auto simp: verified_def verifyAdmin_def split: option.splits)

lemma verifyAdmin_verified: "verified e req \<Longrightarrow> verifyAdmin e (authorization req) = None"
  by (auto simp: verified_def verifyAdmin_def split: option.splits)

lemma admin_only_verified: "verified e req \<Longrightarrow> admin_only e s req handled = handled"
  by (simp add: admin_only_def verifyAdmin_verified)

text \<open>
  Claim C3, as the code has it. On the server of \<^verbatim>\<open>backend/server.js\<close>, a request to a
  moderation-sensitive route that carries no successfully verified token is refused, with
  401 when it has no \<^verbatim>\<open>Authorization\<close> header and with 403 otherwise, and the handler
  does not run: the state is as before. The server of \<^verbatim>\<open>part_000\<close> has no gate: its
  answer does not depend on the header.
\<close>

theorem unverified_moderation_refused:
  assumes "moderation_route (target req)" and "\<not> verified e req"
  shows "server_js e s req
           = ((if authorization req = None then (401, Refused MissingCredentialsError)
               else (403, Refused InvalidTokenError)), s)
       \<and> disk_server e s (req\<lparr>authorization := a\<rparr>) = disk_server e s req"
proof -
  have "admin_only e s req handled
          = ((if authorization req = None then (401, Refused MissingCredentialsError)
              else (403, Refused InvalidTokenError)), s)" for handled
    using verifyAdmin_unverified [OF assms(2)] by (simp add: admin_only_def)
  then have "server_js e s req
           = ((if authorization req = None then (401, Refused MissingCredentialsError)
               else (403, Refused InvalidTokenError)), s)"
    using assms(1) by (cases "target req") (simp_all add: server_js_def)
  moreover have "disk_server e s (req\<lparr>authorization := a\<rparr>) = disk_server e s req"
    by (simp add: disk_server_def)
  ultimately show ?thesis by simp
qed

theorem unverified_moderation_refused_witness:
  "moderation_route (target (anonymous (DeleteUser ''a@x.com'')))
   \<and> \<not> verified sample_env (anonymous (DeleteUser ''a@x.com''))
   \<and> server_js sample_env cloud_two (anonymous (DeleteUser ''a@x.com''))
       = ((401, Refused MissingCredentialsError), cloud_two)
   \<and> \<not> verified sample_env \<lparr>authorization = Some ''Bearer stale-token'', target = PatchStatus first_id ''rejected''\<rparr>
   \<and> server_js sample_env cloud_two
        \<lparr>authorization = Some ''Bearer stale-token'', target = PatchStatus first_id ''rejected''\<rparr>
       = ((403, Refused InvalidTokenError), cloud_two)"
proof -
  let ?stale = "\<lparr>authorization = Some ''Bearer stale-token'', target = PatchStatus first_id ''rejected''\<rparr>"
  have r1: "moderation_route (target (anonymous (DeleteUser ''a@x.com'')))"
    by (simp add: anonymous_def)
  have u1: "\<not> verified sample_env (anonymous (DeleteUser ''a@x.com''))"
    by (simp add: anonymous_def verified_def)
  have r2: "moderation_route (target ?stale)"
    by simp
  have u2: "\<not> verified sample_env ?stale"
    by (simp add: verified_def bearer_token_def sample_env_def)
  from unverified_moderation_refused [OF r1 u1, of cloud_two None]
    unverified_moderation_refused [OF r2 u2, of cloud_two None] r1 u1 u2
  show ?thesis by (simp add: anonymous_def)
qed

text \<open>
  Claim C3 as stated fails on the server of \<^verbatim>\<open>part_000\<close>: a status transition with no
  \<^verbatim>\<open>Authorization\<close> header is served with 200 and rewrites the first sample issue.
\<close>

theorem ungated_transition_served:
  "moderation_route (target (anonymous (PatchStatus first_id ''rejected'')))
   \<and> \<not> verified sample_env (anonymous (PatchStatus first_id ''rejected''))
   \<and> fst (fst (disk_server sample_env disk_two (anonymous (PatchStatus first_id ''rejected'')))) = 200
   \<and> map status (issues disk_two) = [''pending'', ''pending'']
   \<and> map status (issues (snd (disk_server sample_env disk_two (anonymous (PatchStatus first_id ''rejected'')))))
       = [''rejected'', ''pending'']"
  by (simp add: anonymous_def verified_def disk_two_value sample_env_def pothole_doc_def
      streetlight_doc_def disk_server_def patch_status_def findByIdAndUpdate_def cast_defs)

section \<open>Stored names\<close>

lemma digit_inj: "a < 10 \<Longrightarrow> b < 10 \<Longrightarrow> digit a = digit b \<Longrightarrow> a = b"
proof -
  assume "a < 10" "b < 10" "digit a = digit b"
  moreover have "distinct ''0123456789''" by simp
  ultimately show "a = b"
    by (simp add: digit_def nth_eq_iff_index_eq)
qed

lemma digit_no_dot: "d < 10 \<Longrightarrow> digit d \<noteq> CHR ''.''"
proof -
  assume "d < 10"
  then have "digit d \<in> set ''0123456789''"
    unfolding digit_def by (intro nth_mem) simp
  then show ?thesis by auto
qed

lemma number_string_nonempty: "number_string n \<noteq> []"
  by (subst number_string.simps) simp

lemma number_string_no_dot: "CHR ''.'' \<notin> set (number_string n)"
proof (induction n rule: number_string.induct)
  case (1 n)
  show ?case
  proof (cases "n < 10")
    case True
    then show ?thesis
      using digit_no_dot [of n] by (subst number_string.simps) auto
  next
    case False
    then show ?thesis
      using 1 digit_no_dot [of "n mod 10"] by (subst number_string.simps) auto
  qed
qed

lemma number_string_inj: "number_string m = number_string n \<Longrightarrow> m = n"
proof (induction m arbitrary: n rule: number_string.induct)
  case (1 m)
  show ?case
  proof (cases "m < 10")
    case small_m: True
    show ?thesis
    proof (cases "n < 10")
      case True
      with small_m "1.prems" show ?thesis
        by (simp add: number_string.simps [of m] number_string.simps [of n] digit_inj)
    next
      case False
      with small_m "1.prems" number_string_nonempty [of "n div 10"] show ?thesis
        by (simp add: number_string.simps [of m] number_string.simps [of n])
    qed
  next
    case big_m: False
    show ?thesis
    proof (cases "n < 10")
      case True
      with big_m "1.prems" number_string_nonempty [of "m div 10"] show ?thesis
        by (simp add: number_string.simps [of m] number_string.simps [of n])
    next
      case False
      with big_m "1.prems" have
        "number_string (m div 10) = number_string (n div 10)"
        "digit (m mod 10) = digit (n mod 10)"
        by (simp_all add: number_string.simps [of m] number_string.simps [of n])
      then have "m div 10 = n div 10" "m mod 10 = n mod 10"
        using "1.IH" [OF big_m] digit_inj [of "m mod 10" "n mod 10"] by simp_all
      then show ?thesis
        by (metis div_mult_mod_eq)
    qed
  qed
qed

lemma scan_dot:
  assumes "k \<le> length p"
    and "\<forall>e. end_pos st = Some e \<longrightarrow> k < e"
    and "\<forall>d. startDot st = Some d \<longrightarrow>
           d < length p \<and> p ! d = CHR ''.'' \<and> (\<exists>e. end_pos st = Some e \<and> d < e)"
  shows "\<forall>d. startDot (scan p k st) = Some d \<longrightarrow>
           d < length p \<and> p ! d = CHR ''.'' \<and> (\<exists>e. end_pos (scan p k st) = Some e \<and> d < e)"
  using assms
proof (induction p k st rule: scan.induct)
  case (1 p st)
  then show ?case by simp
next
  case (2 p i st)
  show ?case
  proof (cases "p ! i = CHR ''/''")
    case True
    show ?thesis
    proof (cases "matchedSlash st")
      case True
      have same: "scan p (Suc i) st = scan p i st"
        using \<open>p ! i = CHR ''/''\<close> True by simp
      have "i \<le> length p"
        using "2.prems"(1) by simp
      moreover have "\<forall>e. end_pos st = Some e \<longrightarrow> i < e"
        using "2.prems"(2) by auto
      ultimately show ?thesis
        using "2.IH"(1) [OF \<open>p ! i = CHR ''/''\<close>] True "2.prems"(3)
        by (simp only: same) blast
    next
      case False
      have "scan p (Suc i) st = st\<lparr>startPart := i + 1\<rparr>"
        using \<open>p ! i = CHR ''/''\<close> False by simp
      then show ?thesis
        using "2.prems"(3) by simp
    qed
  next
    case False
    define st1 where "st1 = (if end_pos st = None
                    then st\<lparr>matchedSlash := False, end_pos := Some (i + 1)\<rparr> else st)"
    define st2 where "st2 = (if p ! i = CHR ''.'' then
                      (if startDot st1 = None then st1\<lparr>startDot := Some i\<rparr>
                       else if preDotState st1 \<noteq> 1 then st1\<lparr>preDotState := 1\<rparr>
                       else st1)
                    else if startDot st1 \<noteq> None then st1\<lparr>preDotState := - 1\<rparr>
                    else st1)"
    have step: "scan p (Suc i) st = scan p i st2"
      using False by (simp add: st1_def st2_def Let_def)
    have e1: "\<forall>e. end_pos st1 = Some e \<longrightarrow> i < e"
      using "2.prems"(2) by (auto simp: st1_def)
    have d1: "\<forall>d. startDot st1 = Some d \<longrightarrow>
           d < length p \<and> p ! d = CHR ''.'' \<and> (\<exists>e. end_pos st1 = Some e \<and> d < e)"
      using "2.prems"(3) by (auto simp: st1_def)
    have some1: "\<exists>e. end_pos st1 = Some e"
      by (auto simp: st1_def)
    have e2: "\<forall>e. end_pos st2 = Some e \<longrightarrow> i < e"
      using e1 by (auto simp: st2_def)
    have d2: "\<forall>d. startDot st2 = Some d \<longrightarrow>
           d < length p \<and> p ! d = CHR ''.'' \<and> (\<exists>e. end_pos st2 = Some e \<and> d < e)"
      using d1 e1 some1 "2.prems"(1) by (auto simp: st2_def)
    have "i \<le> length p"
      using "2.prems"(1) by simp
    from "2.IH"(2) [OF False st1_def st2_def this e2 d2] show ?thesis
      by (simp only: step)
  qed
qed

lemma extname_dot: "extname p = [] \<or> (\<exists>r. extname p = CHR ''.'' # r)"
proof -
  let ?st0 = "\<lparr>startDot = None, startPart = 0, end_pos = None,
               matchedSlash = True, preDotState = 0\<rparr>"
  let ?st = "scan p (length p) ?st0"
  have inv: "\<forall>d. startDot ?st = Some d \<longrightarrow>
           d < length p \<and> p ! d = CHR ''.'' \<and> (\<exists>e. end_pos ?st = Some e \<and> d < e)"
    by (rule scan_dot) simp_all
  show ?thesis
  proof (cases "startDot ?st")
    case None
    then show ?thesis by (simp add: extname_def Let_def)
  next
    case (Some d)
    with inv obtain e where de: "d < length p" "p ! d = CHR ''.''" "end_pos ?st = Some e" "d < e"
      by auto
    then obtain m where m: "e - d = Suc m"
      by (cases "e - d") auto
    have "take (e - d) (drop d p) = CHR ''.'' # take m (drop (Suc d) p)"
      using de(1,2) by (simp add: m Cons_nth_drop_Suc [symmetric])
    with Some de(3) show ?thesis
      by (simp add: extname_def Let_def)
  qed
qed

lemma takeWhile_until:
  "c \<notin> set xs \<Longrightarrow> takeWhile (\<lambda>x. x \<noteq> c) (xs @ c # r) = xs"
  "c \<notin> set xs \<Longrightarrow> takeWhile (\<lambda>x. x \<noteq> c) xs = xs"
  by (induction xs) auto

lemma digits_then_extension:
  assumes "xs @ a = ys @ b"
    and "CHR ''.'' \<notin> set xs" "CHR ''.'' \<notin> set ys"
    and "a = [] \<or> (\<exists>r. a = CHR ''.'' # r)" "b = [] \<or> (\<exists>r. b = CHR ''.'' # r)"
  shows "xs = ys \<and> a = b"
proof -
  have "takeWhile (\<lambda>c. c \<noteq> CHR ''.'') (xs @ a) = xs"
    using assms(2,4) by (auto simp: takeWhile_until)
  moreover have "takeWhile (\<lambda>c. c \<noteq> CHR ''.'') (ys @ b) = ys"
    using assms(3,5) by (auto simp: takeWhile_until)
  ultimately have "xs = ys"
    using assms(1) by simp
  with assms(1) show ?thesis by simp
qed

text \<open>
  Claim C9, as the code has it. The disk adapter names a stored file by the clock
  reading in milliseconds followed by the extension of the original name: the stored
  names of two uploads are equal exactly when the clock readings are equal and the
  extensions are equal. An upload is written under its stored name, in place of what
  that name held.
\<close>

theorem stored_name_collisions:
  "(disk_filename t1 n1 = disk_filename t2 n2) = (t1 = t2 \<and> extname n1 = extname n2)
   \<and> uploads (snd (disk_storage e s p)) (disk_filename (now e) (originalname p))
       = Some (content p)"
proof -
  have "t1 = t2 \<and> extname n1 = extname n2" if "disk_filename t1 n1 = disk_filename t2 n2"
  proof -
    from that have "number_string t1 @ extname n1 = number_string t2 @ extname n2"
      by (simp add: disk_filename_def)
    then have "number_string t1 = number_string t2 \<and> extname n1 = extname n2"
      using number_string_no_dot extname_dot by (intro digits_then_extension) auto
    then show ?thesis
      using number_string_inj by auto
  qed
  moreover have "disk_filename t1 n1 = disk_filename t2 n2" if "t1 = t2 \<and> extname n1 = extname n2"
    using that by (simp add: disk_filename_def)
  moreover have "uploads (snd (disk_storage e s p)) (disk_filename (now e) (originalname p))
       = Some (content p)"
    by (simp add: disk_storage_def Let_def)
  ultimately show ?thesis by blast
qed

theorem stored_name_collisions_witness:
  "disk_filename 1700000000000 ''cat.png'' \<noteq> disk_filename 1700000000001 ''dog.png''
   \<and> disk_filename 1700000000000 ''cat.png'' \<noteq> disk_filename 1700000000000 ''cat.jpg''
   \<and> uploads (snd (disk_storage sample_env sample_start cat_photo)) ''1700000000000.png''
       = Some ''CAT''"
proof -
  have "extname ''cat.png'' \<noteq> extname ''cat.jpg''"
    by (simp add: extname_def)
  then show ?thesis
    using stored_name_collisions [of 1700000000000 "''cat.png''" 1700000000001 "''dog.png''"
        sample_env sample_start cat_photo]
      stored_name_collisions [of 1700000000000 "''cat.png''" 1700000000000 "''cat.jpg''"
        sample_env sample_start cat_photo]
    by (simp add: sample_filename sample_env_def cat_photo_def)
qed

text \<open>
  Claim C9 as stated fails: the two sample uploads, different files received at the
  same clock reading, get the same stored name, both issues point to it, and the
  directory holds only the second file under it.
\<close>

theorem same_millisecond_overwrites:
  "cat_photo \<noteq> dog_photo
   \<and> disk_filename (now sample_env) (originalname cat_photo)
       = disk_filename (now sample_env) (originalname dog_photo)
   \<and> map photo (issues disk_two) = [''/uploads/1700000000000.png'', ''/uploads/1700000000000.png'']
   \<and> uploads disk_two ''1700000000000.png'' = Some (content dog_photo)"
  by (simp add: disk_two_value sample_defs sample_filename)

end
